theory Spec2Isabelle
  imports Main
begin

section \<open>Strings\<close>

text \<open>
  JavaScript strings are modelled as \<open>string\<close>; the characters that matter to the
  program (separators, keywords, markup of the generated Markdown) are all ASCII.
\<close>

definition nl :: string where
  "nl = [CHR 0x0A]"

text \<open>\<open>s.split(c)\<close> for a one-character separator: the pieces between the occurrences
  of \<open>c\<close>, so a string with \<open>n\<close> separators has \<open>n + 1\<close> pieces.\<close>

fun split :: "char \<Rightarrow> string \<Rightarrow> string list" where
  "split c [] = [[]]"
| "split c (x # xs) =
     (if x = c then [] # split c xs
      else (case split c xs of [] \<Rightarrow> [[x]] | p # ps \<Rightarrow> (x # p) # ps))"

text \<open>\<open>parts.join(sep)\<close>.\<close>

fun join :: "string \<Rightarrow> string list \<Rightarrow> string" where
  "join sep [] = []"
| "join sep [p] = p"
| "join sep (p # q # ps) = p @ sep @ join sep (q # ps)"

text \<open>\<open>s.includes(k)\<close>, here \<open>includesStr s k\<close>: \<open>k\<close> occurs in \<open>s\<close> as a contiguous
  substring.\<close>

fun startsWith :: "string \<Rightarrow> string \<Rightarrow> bool" where
  "startsWith s [] = True"
| "startsWith [] (k # ks) = False"
| "startsWith (x # xs) (k # ks) = (x = k \<and> startsWith xs ks)"

fun includesStr :: "string \<Rightarrow> string \<Rightarrow> bool" where
  "includesStr [] k = (k = [])"
| "includesStr (x # xs) k = (startsWith (x # xs) k \<or> includesStr xs k)"

text \<open>\<open>s.toLowerCase()\<close> on ASCII text: the letters \<open>A\<close> to \<open>Z\<close> are lowered, every
  other character is kept.\<close>

definition lowerChar :: "char \<Rightarrow> char" where
  "lowerChar c =
     (case map_of (zip ''ABCDEFGHIJKLMNOPQRSTUVWXYZ'' ''abcdefghijklmnopqrstuvwxyz'') c of
        None \<Rightarrow> c
      | Some l \<Rightarrow> l)"

definition toLowerCase :: "string \<Rightarrow> string" where
  "toLowerCase s = map lowerChar s"

text \<open>\<open>s.trim()\<close>: leading and trailing white space (space, tab, line feed, vertical
  tab, form feed, carriage return) removed.\<close>

definition isSpace :: "char \<Rightarrow> bool" where
  "isSpace c = (c \<in> set [CHR 0x20, CHR 0x09, CHR 0x0A, CHR 0x0B, CHR 0x0C, CHR 0x0D])"

definition trim :: "string \<Rightarrow> string" where
  "trim s = rev (dropWhile isSpace (rev (dropWhile isSpace s)))"

section \<open>The record of one changed file\<close>

text \<open>The interface \<open>DiffHunk\<close>. The three flags are optional properties: \<open>None\<close> is a
  property that was never set (\<open>undefined\<close>).\<close>

record DiffHunk =
  before :: string
  after :: string
  filePath :: string
  extension :: string
  baseName :: string
  tooLarge :: "bool option"
  notInline :: "bool option"
  isNewFile :: "bool option"

text \<open>The truth value of an optional flag in a condition: \<open>undefined\<close> and \<open>false\<close>
  are both falsy.\<close>

fun truthy :: "bool option \<Rightarrow> bool" where
  "truthy None = False"
| "truthy (Some b) = b"

subsection \<open>getFileExtension, getBaseName\<close>

definition getFileExtension :: "string \<Rightarrow> string" where
  "getFileExtension p =
     (let parts = split (CHR ''.'') p
      in if length parts > 1 then last parts else [])"

text \<open>\<open>filePath.split('/').pop() || filePath\<close>: the last piece, unless it is the empty
  string (which is falsy), where the whole path is returned.\<close>

definition getBaseName :: "string \<Rightarrow> string" where
  "getBaseName p =
     (let popped = last (split (CHR ''/'') p)
      in if popped = [] then p else popped)"

subsection \<open>createMarkdownContent\<close>

definition createMarkdownContent :: "DiffHunk \<Rightarrow> string" where
  "createMarkdownContent diff =
     (if truthy (notInline diff) then
        ''# '' @ baseName diff @ nl @ nl @
        ''Diff not available inline. Please view the file directly on GitHub.''
      else if truthy (tooLarge diff) then
        ''# '' @ baseName diff @ nl @ nl @
        ''Diff too large to display on GitHub. Not available for export.''
      else if truthy (isNewFile diff) then
        ''# '' @ baseName diff @ nl @ nl @ ''## Before'' @ nl @
        ''This file did not exist before.'' @ nl @ nl @ ''## After'' @ nl @
        ''```'' @ extension diff @ nl @ after diff @ nl @ ''```'' @ nl
      else if before diff = [] \<and> after diff = [] then
        ''# '' @ baseName diff @ nl @ nl @
        ''No textual changes, file is binary, or too large to display.''
      else
        ''# '' @ baseName diff @ nl @ nl @ ''## Before'' @ nl @
        ''```'' @ extension diff @ nl @ before diff @ nl @ ''```'' @ nl @ nl @
        ''## After'' @ nl @
        ''```'' @ extension diff @ nl @ after diff @ nl @ ''```'' @ nl)"

section \<open>The page\<close>

text \<open>
  The rendered page is an external collaborator. The program reaches it only through
  the DOM calls below, so the page is a parameter of the model: a world \<open>'w\<close> (the
  state of the document at one moment), element handles \<open>'e\<close>, and the answers the
  browser gives. Between two suspension points (\<open>await\<close>) the script runs alone and
  the world does not change; it changes when the script clicks, scrolls or waits.
\<close>

text \<open>The selectors the program uses: a comma-separated group of descendant chains of
  class or tag tests.\<close>

datatype simple = Cls string | Tag string

type_synonym selector = "simple list list"

definition selBinary :: selector where
  "selBinary = [[Cls ''diff-view-binary''], [Cls ''rendered'']]"

definition selInfo :: selector where
  "selInfo = [[Cls ''file-info''], [Cls ''file-header'']]"

definition selLabel :: selector where
  "selLabel = [[Cls ''Label--success''], [Cls ''Label'']]"

definition selControls :: selector where
  "selControls = [[Tag ''button''], [Tag ''summary'']]"

definition selLinks :: selector where
  "selLinks = [[Tag ''a'']]"

definition selDeletion :: selector where
  "selDeletion = [[Cls ''blob-code-deletion'']]"

definition selAddition :: selector where
  "selAddition = [[Cls ''blob-code-addition'']]"

definition selPathLink :: selector where
  "selPathLink = [[Cls ''file-info'', Tag ''a'']]"

definition selBlobCode :: selector where
  "selBlobCode = [[Cls ''blob-code'']]"

definition selFile :: selector where
  "selFile = [[Cls ''file'']]"

text \<open>An exception raised by the browser or by a library.\<close>

datatype exn = Exn string

text \<open>The archive under construction (the library object \<open>JSZip\<close>): its file entries
  by full name, in the order in which the names were first written. Writing a name
  that is already there replaces the content of that entry.\<close>

type_synonym archive = "(string \<times> string) list"

fun zipFile :: "string \<Rightarrow> string \<Rightarrow> archive \<Rightarrow> archive" where
  "zipFile name content [] = [(name, content)]"
| "zipFile name content ((n, c) # es) =
     (if n = name then (name, content) # es else (n, c) # zipFile name content es)"

text \<open>\<open>zip.folder(dir).file(name, content)\<close>.\<close>

definition folderFile :: "string \<Rightarrow> string \<Rightarrow> string \<Rightarrow> archive \<Rightarrow> archive" where
  "folderFile dir name content z = zipFile (dir @ ''/'' @ name) content z"

text \<open>
  The calls into the browser and the libraries. \<open>click\<close> and \<open>sleep\<close> (a timer of so
  many milliseconds, during which the page re-renders) cannot raise; reading
  \<open>document.body.scrollHeight\<close> to scroll down, generating the archive and saving it
  can.
\<close>

record ('w, 'e, 'b) env =
  querySelectorAll :: "'w \<Rightarrow> 'e \<Rightarrow> selector \<Rightarrow> 'e list"
  documentQuerySelectorAll :: "'w \<Rightarrow> selector \<Rightarrow> 'e list"
  textContent :: "'w \<Rightarrow> 'e \<Rightarrow> string"
  click :: "'e \<Rightarrow> 'w \<Rightarrow> 'w"
  sleep :: "nat \<Rightarrow> 'w \<Rightarrow> 'w"
  scrollToBottom :: "'w \<Rightarrow> exn + 'w"
  scrollToTop :: "'w \<Rightarrow> 'w"
  pathname :: "'w \<Rightarrow> string"
  generateAsync :: "archive \<Rightarrow> exn + 'b"
  saveAs :: "'b \<Rightarrow> string \<Rightarrow> 'w \<Rightarrow> exn + 'w"

text \<open>\<open>el.querySelector(sel)\<close>: the first match in document order.\<close>

definition querySelector :: "('w, 'e, 'b) env \<Rightarrow> 'w \<Rightarrow> 'e \<Rightarrow> selector \<Rightarrow> 'e option" where
  "querySelector E w el sel =
     (case querySelectorAll E w el sel of [] \<Rightarrow> None | x # _ \<Rightarrow> Some x)"

section \<open>The diff extractor\<close>

definition isBinaryFile :: "('w, 'e, 'b) env \<Rightarrow> 'w \<Rightarrow> 'e \<Rightarrow> bool" where
  "isBinaryFile E w file = (querySelector E w file selBinary \<noteq> None)"

text \<open>The method \<open>isNewFile\<close>; the name without suffix is the field of the record.\<close>

definition isNewFile_of :: "('w, 'e, 'b) env \<Rightarrow> 'w \<Rightarrow> 'e \<Rightarrow> bool" where
  "isNewFile_of E w file =
     (case querySelector E w file selInfo of
        None \<Rightarrow> False
      | Some info \<Rightarrow>
          (let label = (case querySelector E w info selLabel of
                          None \<Rightarrow> []
                        | Some l \<Rightarrow> toLowerCase (textContent E w l))
           in if includesStr label ''new file'' \<or> includesStr label ''added'' then True
              else if includesStr (toLowerCase (textContent E w info)) ''new file'' then True
              else False))"

subsection \<open>tryLoadLargeDiff\<close>

datatype loadResult = Loaded | TooLarge | NotInline

text \<open>The array \<open>keywords\<close>.\<close>

definition loadKeywords :: "string list" where
  "loadKeywords = [''load diff'', ''view file'', ''show diff'', ''display the diff'',
               ''load this diff'', ''show this diff'']"

text \<open>The test both \<open>find\<close> calls use: the element's lowered text contains a keyword.\<close>

definition hasKeyword :: "('w, 'e, 'b) env \<Rightarrow> 'w \<Rightarrow> 'e \<Rightarrow> bool" where
  "hasKeyword E w el =
     (let txt = toLowerCase (textContent E w el)
      in list_ex (\<lambda>k. includesStr txt k) loadKeywords)"

text \<open>
  The retry loop, from the state at the head of one iteration. The result is the pair
  of flags \<open>(loaded, notInline)\<close> at the exit of the loop, the number of iterations
  whose body ran, and the world at the exit.
\<close>

function tryLoadLoop ::
  "('w, 'e, 'b) env \<Rightarrow> 'e \<Rightarrow> nat \<Rightarrow> 'w \<Rightarrow> (bool \<times> bool) \<times> nat \<times> 'w" where
  "tryLoadLoop E file attempt w =
     (if attempt < 5 then
        (let btn = find (hasKeyword E w) (querySelectorAll E w file selControls);
             aLink = find (hasKeyword E w) (querySelectorAll E w file selLinks)
         in if btn = None \<and> aLink \<noteq> None then ((False, True), attempt + 1, w)
            else
              (case btn of
                 Some b \<Rightarrow> tryLoadLoop E file (attempt + 1) (sleep E 1200 (click E b w))
               | None \<Rightarrow>
                   if querySelectorAll E w file selDeletion \<noteq> [] \<or>
                      querySelectorAll E w file selAddition \<noteq> []
                   then ((True, False), attempt + 1, w)
                   else if includesStr (toLowerCase (textContent E w file))
                             ''diff is too large to display''
                   then ((False, False), attempt + 1, w)
                   else tryLoadLoop E file (attempt + 1) (sleep E 600 w)))
      else ((False, False), attempt, w))"
  by pat_completeness auto
termination
  by (relation "measure (\<lambda>(E, file, attempt, w). 5 - attempt)") auto

declare tryLoadLoop.simps [simp del]

definition tryLoadLargeDiff ::
  "('w, 'e, 'b) env \<Rightarrow> 'e \<Rightarrow> 'w \<Rightarrow> loadResult \<times> nat \<times> 'w" where
  "tryLoadLargeDiff E file w =
     (case tryLoadLoop E file 0 w of
        ((loaded, notInl), n, w') \<Rightarrow>
          (if notInl then NotInline else if loaded then Loaded else TooLarge, n, w'))"

subsection \<open>processDiff\<close>

definition placeholder :: string where
  "placeholder = ''This file did not exist before.''"

text \<open>
  The result is the record (\<open>None\<close> for the \<open>null\<close> of a section without a file path),
  the number of load attempts made on the way, and the world afterwards.
\<close>

definition processDiff ::
  "('w, 'e, 'b) env \<Rightarrow> 'e \<Rightarrow> 'w \<Rightarrow> DiffHunk option \<times> nat \<times> 'w" where
  "processDiff E file w =
     (case map_option (\<lambda>a. trim (textContent E w a)) (querySelector E w file selPathLink) of
        None \<Rightarrow> (None, 0, w)
      | Some path \<Rightarrow>
          if path = [] then (None, 0, w)
          else if isBinaryFile E w file then
            (Some \<lparr>before = [], after = [], filePath = path,
                   extension = getFileExtension path, baseName = getBaseName path,
                   tooLarge = None, notInline = None, isNewFile = None\<rparr>, 0, w)
          else
            (let isNew = isNewFile_of E w file;
                 beforeBlocks = querySelectorAll E w file selDeletion;
                 afterBlocks = querySelectorAll E w file selAddition
             in if isNew then
                  (Some \<lparr>before = placeholder,
                         after = join nl (map (textContent E w)
                                            (querySelectorAll E w file selBlobCode)),
                         filePath = path,
                         extension = getFileExtension path, baseName = getBaseName path,
                         tooLarge = Some False, notInline = Some False,
                         isNewFile = Some True\<rparr>, 0, w)
                else if beforeBlocks = [] \<and> afterBlocks = [] then
                  (case tryLoadLargeDiff E file w of
                     (loadResult, n, w') \<Rightarrow>
                       (let txt = toLowerCase (textContent E w' file)
                        in (Some \<lparr>before = join nl (map (textContent E w')
                                             (querySelectorAll E w' file selDeletion)),
                                  after = join nl (map (textContent E w')
                                            (querySelectorAll E w' file selAddition)),
                                  filePath = path,
                                  extension = getFileExtension path,
                                  baseName = getBaseName path,
                                  tooLarge = Some (loadResult = TooLarge \<and>
                                    (includesStr txt ''diff is too large to display'' \<or>
                                     includesStr txt ''too large to render'')),
                                  notInline = Some (loadResult = NotInline),
                                  isNewFile = Some False\<rparr>, n, w')))
                else
                  (Some \<lparr>before = join nl (map (textContent E w) beforeBlocks),
                         after = join nl (map (textContent E w) afterBlocks),
                         filePath = path,
                         extension = getFileExtension path, baseName = getBaseName path,
                         tooLarge = Some False, notInline = Some False,
                         isNewFile = Some False\<rparr>, 0, w)))"

section \<open>The exporter\<close>

text \<open>
  The fields of \<open>PRDiffExporter\<close> and what they own on the page: the export button
  (\<open>disabled\<close>), the progress element (its \<open>display\<close> style and what it shows) and the
  archive. \<open>alerts\<close> counts the blocking notifications shown to the user. What the
  progress element shows is kept with its numbers: a plain message, the loader's
  \<open>Loading all diffs... (n files)\<close>, or the counters of \<open>Processing files\<close>.
\<close>

datatype progress =
    Idle
  | Message string
  | LoadingFiles nat
  | Processing nat nat

record 'w exporter =
  world :: 'w
  zip :: archive
  buttonDisabled :: bool
  progressDisplay :: string
  progressShown :: progress
  alerts :: nat

text \<open>\<open>updateProgress(current, total, message)\<close>: the element is shown, with the
  message when there is one (the empty string is falsy) and the counters otherwise.
  The percentage is computed from the two counters and is not stored.\<close>

definition updateProgress ::
  "nat \<Rightarrow> nat \<Rightarrow> string option \<Rightarrow> 'w exporter \<Rightarrow> 'w exporter" where
  "updateProgress current totalN message s =
     s\<lparr>progressDisplay := ''block'',
       progressShown := (case message of
                           None \<Rightarrow> Processing current totalN
                         | Some m \<Rightarrow> if m = [] then Processing current totalN else Message m)\<rparr>"

subsection \<open>loadAllDiffs\<close>

text \<open>The regular expression \<open>/load more|show more|expand/\<close> on a lowered text.\<close>

definition moreRegex :: "string \<Rightarrow> bool" where
  "moreRegex t =
     (includesStr t ''load more'' \<or> includesStr t ''show more'' \<or> includesStr t ''expand'')"

text \<open>
  The \<open>while\<close> loop, from the state at its head: \<open>lastFileCount\<close>, \<open>stableCount\<close>,
  \<open>tries\<close>. \<open>seen\<close> collects the section counts observed so far, one per completed
  iteration. An exception leaves the loop with the state as it is at that moment. The
  call \<open>updateProgress(lastFileCount, 0, message)\<close> is written out: its message is never
  empty.
\<close>

function loadLoop ::
  "('w, 'e, 'b) env \<Rightarrow> nat \<Rightarrow> nat \<Rightarrow> nat \<Rightarrow> nat list \<Rightarrow> 'w exporter \<Rightarrow>
     (exn + unit) \<times> nat list \<times> 'w exporter" where
  "loadLoop E lastFileCount stableCount tries seen s =
     (if tries < 50 then
        (case scrollToBottom E (world s) of
           Inl e \<Rightarrow> (Inl e, seen, s)
         | Inr w1 \<Rightarrow>
             (let moreBtns = filter (\<lambda>el. moreRegex (toLowerCase (textContent E w1 el)))
                               (documentQuerySelectorAll E w1 selControls);
                  w2 = fold (click E) moreBtns w1;
                  w3 = sleep E 800 w2;
                  n = length (documentQuerySelectorAll E w3 selFile);
                  stable = (if n = lastFileCount then stableCount + 1 else 0);
                  s' = (s\<lparr>world := w3\<rparr>)\<lparr>progressDisplay := ''block'',
                                            progressShown := LoadingFiles n\<rparr>
              in if stable \<ge> 3 then (Inr (), seen @ [n], s')
                 else loadLoop E n stable (tries + 1) (seen @ [n]) s'))
      else (Inr (), seen, s))"
  by pat_completeness auto
termination
  by (relation "measure (\<lambda>(E, lastFileCount, stableCount, tries, seen, s). 50 - tries)") auto

declare loadLoop.simps [simp del]

definition loadAllDiffs ::
  "('w, 'e, 'b) env \<Rightarrow> 'w exporter \<Rightarrow> (exn + unit) \<times> nat list \<times> 'w exporter" where
  "loadAllDiffs E s =
     (case loadLoop E 0 0 0 [] s of
        (Inl e, seen, s') \<Rightarrow> (Inl e, seen, s')
      | (Inr u, seen, s') \<Rightarrow>
          (Inr (), seen, s'\<lparr>world := scrollToTop E (world s'), progressDisplay := ''none''\<rparr>))"

subsection \<open>exportDiffs\<close>

text \<open>
  The \<open>for\<close> loop over the sections found when the export starts. Besides the state
  it returns the records produced, in the order of the sections.
\<close>

fun exportLoop ::
  "('w, 'e, 'b) env \<Rightarrow> 'e list \<Rightarrow> nat \<Rightarrow> nat \<Rightarrow> 'w exporter \<Rightarrow> DiffHunk list \<times> 'w exporter"
  where
  "exportLoop E [] processedFiles totalFiles s = ([], s)"
| "exportLoop E (file # files) processedFiles totalFiles s =
     (case processDiff E file (world s) of
        (diff, n, w') \<Rightarrow>
          (let s1 = (case diff of
                       None \<Rightarrow> s\<lparr>world := w'\<rparr>
                     | Some d \<Rightarrow>
                         s\<lparr>world := w',
                           zip := folderFile ''diffs'' (baseName d @ ''.md'')
                                    (createMarkdownContent d) (zip s)\<rparr>);
               s2 = updateProgress (processedFiles + 1) totalFiles None s1
           in (case exportLoop E files (processedFiles + 1) totalFiles s2 of
                 (ds, s3) \<Rightarrow> ((case diff of None \<Rightarrow> [] | Some d \<Rightarrow> [d]) @ ds, s3))))"

text \<open>\<open>parts[i]\<close> inside a template literal: a missing element prints as
  \<open>undefined\<close>.\<close>

definition segment :: "string list \<Rightarrow> nat \<Rightarrow> string" where
  "segment parts i = (if i < length parts then parts ! i else ''undefined'')"

text \<open>The body of the \<open>try\<close> block.\<close>

definition exportBody ::
  "('w, 'e, 'b) env \<Rightarrow> 'w exporter \<Rightarrow> (exn + unit) \<times> DiffHunk list \<times> 'w exporter" where
  "exportBody E s =
     (let files = documentQuerySelectorAll E (world s) selFile
      in case exportLoop E files 0 (length files) s of
           (ds, s1) \<Rightarrow>
             (case generateAsync E (zip s1) of
                Inl e \<Rightarrow> (Inl e, ds, s1)
              | Inr zipBlob \<Rightarrow>
                  (let repoName = segment (split (CHR ''/'') (pathname E (world s1))) 2;
                       prNumber = segment (split (CHR ''/'') (pathname E (world s1))) 4
                   in case saveAs E zipBlob (repoName @ ''-pr'' @ prNumber @ ''-diffs.zip'')
                             (world s1) of
                        Inl e \<Rightarrow> (Inl e, ds, s1)
                      | Inr w' \<Rightarrow> (Inr (), ds, s1\<lparr>world := w'\<rparr>))))"

text \<open>\<open>try\<close>, \<open>catch\<close> (log and alert) and \<open>finally\<close>.\<close>

definition exportDiffs ::
  "('w, 'e, 'b) env \<Rightarrow> 'w exporter \<Rightarrow> DiffHunk list \<times> 'w exporter" where
  "exportDiffs E s =
     (case exportBody E s of
        (r, ds, s1) \<Rightarrow>
          (let s2 = (case r of Inl e \<Rightarrow> s1\<lparr>alerts := alerts s1 + 1\<rparr> | Inr u \<Rightarrow> s1)
           in (ds, s2\<lparr>buttonDisabled := False, progressDisplay := ''none''\<rparr>)))"

subsection \<open>handleExportClick\<close>

text \<open>The handler of the button. An exception that leaves \<open>loadAllDiffs\<close> leaves the
  handler too: nothing here catches it.\<close>

definition handleExportClick ::
  "('w, 'e, 'b) env \<Rightarrow> 'w exporter \<Rightarrow> (exn + unit) \<times> 'w exporter" where
  "handleExportClick E s =
     (let s1 = s\<lparr>buttonDisabled := True\<rparr>;
          s2 = updateProgress 0 0 (Some ''Loading all diffs...'') s1
      in case loadAllDiffs E s2 of
           (Inl e, seen, s3) \<Rightarrow> (Inl e, s3)
         | (Inr u, seen, s3) \<Rightarrow> (Inr (), snd (exportDiffs E s3)))"

text \<open>The exporter as the constructor leaves it: a new archive, the button enabled,
  the progress element hidden.\<close>

definition newExporter :: "'w \<Rightarrow> 'w exporter" where
  "newExporter w =
     \<lparr>world = w, zip = [], buttonDisabled = False, progressDisplay = ''none'',
      progressShown = Idle, alerts = 0\<rparr>"

section \<open>A page of trees\<close>

text \<open>
  One concrete page, to run the program on: the document is a tree of elements (tag,
  classes, children) and text nodes, an element handle is the path of child indices
  from the root, and the world is the list of the document's future states, the head
  being the present one. A click or a wait moves on to the next state when there is
  one; a page with a single state never changes.
\<close>

datatype node = Text string | Elem string "string list" "node list"

fun textOf :: "node \<Rightarrow> string" where
  "textOf (Text t) = t"
| "textOf (Elem tg cs ks) = concat (map textOf ks)"

fun matchesSimple :: "simple \<Rightarrow> node \<Rightarrow> bool" where
  "matchesSimple s (Text t) = False"
| "matchesSimple (Cls c) (Elem tg cs ks) = (c \<in> set cs)"
| "matchesSimple (Tag t) (Elem tg cs ks) = (t = tg)"

text \<open>The rest of a descendant chain, innermost test first, against the ancestors,
  nearest first.\<close>

fun matchesAncestors :: "simple list \<Rightarrow> node list \<Rightarrow> bool" where
  "matchesAncestors [] ancs = True"
| "matchesAncestors (s # ss) [] = False"
| "matchesAncestors (s # ss) (a # ancs) =
     ((matchesSimple s a \<and> matchesAncestors ss ancs) \<or> matchesAncestors (s # ss) ancs)"

definition matchesChain :: "simple list \<Rightarrow> node list \<Rightarrow> node \<Rightarrow> bool" where
  "matchesChain chain ancs n =
     (case rev chain of
        [] \<Rightarrow> False
      | s # ss \<Rightarrow> matchesSimple s n \<and> matchesAncestors ss ancs)"

definition matchesSelector :: "selector \<Rightarrow> node list \<Rightarrow> node \<Rightarrow> bool" where
  "matchesSelector sel ancs n = list_ex (\<lambda>chain. matchesChain chain ancs n) sel"

text \<open>All elements of a tree in document order, each with its path and its
  ancestors.\<close>

fun elems :: "node list \<Rightarrow> nat list \<Rightarrow> node \<Rightarrow> (nat list \<times> node list \<times> node) list"
  and elemsOf :: "node list \<Rightarrow> nat list \<Rightarrow> nat \<Rightarrow> node list \<Rightarrow> (nat list \<times> node list \<times> node) list"
  where
  "elems ancs p (Text t) = []"
| "elems ancs p (Elem tg cs ks) =
     (p, ancs, Elem tg cs ks) # elemsOf (Elem tg cs ks # ancs) p 0 ks"
| "elemsOf ancs p i [] = []"
| "elemsOf ancs p i (k # ks) = elems ancs (p @ [i]) k @ elemsOf ancs p (Suc i) ks"

definition below :: "nat list \<Rightarrow> nat list \<Rightarrow> bool" where
  "below e p = (length e < length p \<and> take (length e) p = e)"

definition treeQuery :: "node \<Rightarrow> nat list \<Rightarrow> selector \<Rightarrow> nat list list" where
  "treeQuery doc e sel =
     map fst (filter (\<lambda>(p, ancs, n). below e p \<and> matchesSelector sel ancs n)
                (elems [] [] doc))"

definition treeDocumentQuery :: "node \<Rightarrow> selector \<Rightarrow> nat list list" where
  "treeDocumentQuery doc sel =
     map fst (filter (\<lambda>(p, ancs, n). matchesSelector sel ancs n) (elems [] [] doc))"

definition treeText :: "node \<Rightarrow> nat list \<Rightarrow> string" where
  "treeText doc e =
     (case filter (\<lambda>(p, ancs, n). p = e) (elems [] [] doc) of
        [] \<Rightarrow> []
      | (p, ancs, n) # rest \<Rightarrow> textOf n)"

fun advance :: "node list \<Rightarrow> node list" where
  "advance (d # d' # ds) = d' # ds"
| "advance ds = ds"

definition treeEnv :: "(node list, nat list, archive) env" where
  "treeEnv =
     \<lparr>querySelectorAll = (\<lambda>w e sel. case w of [] \<Rightarrow> [] | doc # ds \<Rightarrow> treeQuery doc e sel),
      documentQuerySelectorAll =
        (\<lambda>w sel. case w of [] \<Rightarrow> [] | doc # ds \<Rightarrow> treeDocumentQuery doc sel),
      textContent = (\<lambda>w e. case w of [] \<Rightarrow> [] | doc # ds \<Rightarrow> treeText doc e),
      click = (\<lambda>e w. advance w),
      sleep = (\<lambda>ms w. advance w),
      scrollToBottom = (\<lambda>w. Inr w),
      scrollToTop = (\<lambda>w. w),
      pathname = (\<lambda>w. ''/octo/repo/pull/7/files''),
      generateAsync = (\<lambda>z. Inr z),
      saveAs = (\<lambda>blob name w. Inr w)\<rparr>"

text \<open>The sections used below.\<close>

definition pathLink :: "string \<Rightarrow> node" where
  "pathLink p = Elem ''div'' [''file-info''] [Elem ''a'' [] [Text p]]"

definition codeLine :: "string list \<Rightarrow> string \<Rightarrow> node" where
  "codeLine cs t = Elem ''td'' cs [Text t]"

section \<open>The parts of a formatted document\<close>

text \<open>The pieces the design names: the heading of a document, a fenced block with its
  language tag, and the fixed messages.\<close>

definition heading :: "DiffHunk \<Rightarrow> string" where
  "heading d = ''# '' @ baseName d @ nl @ nl"

definition fenced :: "string \<Rightarrow> string \<Rightarrow> string" where
  "fenced tag body = ''```'' @ tag @ nl @ body @ nl @ ''```'' @ nl"

definition notInlineMessage :: string where
  "notInlineMessage = ''Diff not available inline. Please view the file directly on GitHub.''"

definition tooLargeMessage :: string where
  "tooLargeMessage = ''Diff too large to display on GitHub. Not available for export.''"

definition noChangesMessage :: string where
  "noChangesMessage = ''No textual changes, file is binary, or too large to display.''"

definition plainHunk :: "string \<Rightarrow> string \<Rightarrow> string \<Rightarrow> string \<Rightarrow> DiffHunk" where
  "plainHunk name ext b a =
     \<lparr>before = b, after = a, filePath = name, extension = ext, baseName = name,
      tooLarge = None, notInline = None, isNewFile = None\<rparr>"

section \<open>The load-diff protocol, attempt by attempt\<close>

text \<open>
  What one attempt of the protocol finds in the section, in the design's words: an
  activatable control (button or summary) whose text has a load-diff keyword, a
  navigation link whose text has one, deletion- or addition-marked lines, the
  too-large text.
\<close>

definition controlFound :: "('w, 'e, 'b) env \<Rightarrow> 'w \<Rightarrow> 'e \<Rightarrow> 'e option" where
  "controlFound E w file = find (hasKeyword E w) (querySelectorAll E w file selControls)"

definition linkFound :: "('w, 'e, 'b) env \<Rightarrow> 'w \<Rightarrow> 'e \<Rightarrow> 'e option" where
  "linkFound E w file = find (hasKeyword E w) (querySelectorAll E w file selLinks)"

definition linesPresent :: "('w, 'e, 'b) env \<Rightarrow> 'w \<Rightarrow> 'e \<Rightarrow> bool" where
  "linesPresent E w file =
     (querySelectorAll E w file selDeletion \<noteq> [] \<or>
      querySelectorAll E w file selAddition \<noteq> [])"

definition tooLargeText :: "('w, 'e, 'b) env \<Rightarrow> 'w \<Rightarrow> 'e \<Rightarrow> bool" where
  "tooLargeText E w file =
     includesStr (toLowerCase (textContent E w file)) ''diff is too large to display''"

text \<open>The verdict of one attempt: an outcome that ends the protocol, or \<open>None\<close> when
  the attempt resolves nothing and the protocol retries.\<close>

definition attemptVerdict :: "('w, 'e, 'b) env \<Rightarrow> 'e \<Rightarrow> 'w \<Rightarrow> loadResult option" where
  "attemptVerdict E file w =
     (if controlFound E w file = None \<and> linkFound E w file \<noteq> None then Some NotInline
      else if controlFound E w file \<noteq> None then None
      else if linesPresent E w file then Some Loaded
      else if tooLargeText E w file then Some TooLarge
      else None)"

text \<open>The world at the next attempt: the control clicked and 1200 ms waited when there
  is one, 600 ms waited otherwise.\<close>

definition nextWorld :: "('w, 'e, 'b) env \<Rightarrow> 'e \<Rightarrow> 'w \<Rightarrow> 'w" where
  "nextWorld E file w =
     (case controlFound E w file of
        Some b \<Rightarrow> sleep E 1200 (click E b w)
      | None \<Rightarrow> sleep E 600 w)"

definition worldAt :: "('w, 'e, 'b) env \<Rightarrow> 'e \<Rightarrow> 'w \<Rightarrow> nat \<Rightarrow> 'w" where
  "worldAt E file w k = (nextWorld E file ^^ k) w"

fun flagsOf :: "loadResult \<Rightarrow> bool \<times> bool" where
  "flagsOf Loaded = (True, False)"
| "flagsOf NotInline = (False, True)"
| "flagsOf TooLarge = (False, False)"

section \<open>The streak of unchanged counts\<close>

text \<open>
  The streak after a list of observed section counts: how many of the latest
  observations, in a row, found the count unchanged, that is equal to the count
  observed just before (before the first observation the count is 0). The list is
  read from its latest observation backwards.
\<close>

fun streakRev :: "nat list \<Rightarrow> nat" where
  "streakRev [] = 0"
| "streakRev [a] = (if a = 0 then 1 else 0)"
| "streakRev (a # b # xs) = (if a = b then Suc (streakRev (b # xs)) else 0)"

definition streak :: "nat list \<Rightarrow> nat" where
  "streak obs = streakRev (rev obs)"

text \<open>The world in which one iteration of the loader counts the sections: the
  expansion controls clicked, 800 ms waited.\<close>

definition afterIteration :: "('w, 'e, 'b) env \<Rightarrow> 'w \<Rightarrow> 'w" where
  "afterIteration E w1 =
     sleep E 800
       (fold (click E)
          (filter (\<lambda>el. moreRegex (toLowerCase (textContent E w1 el)))
             (documentQuerySelectorAll E w1 selControls)) w1)"

section \<open>The entries of the archive\<close>

text \<open>The entry of one record, and the write of it.\<close>

definition entryOf :: "DiffHunk \<Rightarrow> string \<times> string" where
  "entryOf d = (''diffs/'' @ baseName d @ ''.md'', createMarkdownContent d)"

definition writeEntry :: "DiffHunk \<Rightarrow> archive \<Rightarrow> archive" where
  "writeEntry d z = folderFile ''diffs'' (baseName d @ ''.md'') (createMarkdownContent d) z"

text \<open>The extractor run over the sections in document order, each in the world the
  one before left: one result per section, \<open>None\<close> for a section that is skipped.\<close>

fun recordsOf :: "('w, 'e, 'b) env \<Rightarrow> 'e list \<Rightarrow> 'w \<Rightarrow> DiffHunk option list" where
  "recordsOf E [] w = []"
| "recordsOf E (file # files) w =
     (case processDiff E file w of (diff, n, w') \<Rightarrow> diff # recordsOf E files w')"

fun produced :: "DiffHunk option list \<Rightarrow> DiffHunk list" where
  "produced [] = []"
| "produced (None # rs) = produced rs"
| "produced (Some d # rs) = d # produced rs"

section \<open>Pages to run the program on\<close>

text \<open>A section with a rendered (binary) marker and a new-file label at once.\<close>

definition binaryNewSection :: node where
  "binaryNewSection =
     Elem ''div'' [''file'']
       [Elem ''div'' [''file-info'']
          [Elem ''a'' [] [Text ''img/logo.png''],
           Elem ''span'' [''Label''] [Text ''New file'']],
        Elem ''div'' [''rendered''] [Elem ''img'' [] []]]"

text \<open>The new file \<open>README.md\<close> with the content lines \<open># Title\<close> and \<open>body\<close>.\<close>

definition readmeSection :: node where
  "readmeSection =
     Elem ''div'' [''file'']
       [Elem ''div'' [''file-info'']
          [Elem ''a'' [] [Text ''README.md''],
           Elem ''span'' [''Label''] [Text ''Added'']],
        codeLine [''blob-code'', ''blob-code-addition''] ''# Title'',
        codeLine [''blob-code'', ''blob-code-addition''] ''body'']"

text \<open>A section whose diff is behind a navigation link, one whose diff is behind a
  button, the same section once the diff has loaded, and one that never shows
  anything.\<close>

definition linkOnlySection :: node where
  "linkOnlySection =
     Elem ''div'' [''file''] [pathLink ''big.json'', Elem ''a'' [] [Text ''View file'']]"

definition buttonSection :: node where
  "buttonSection =
     Elem ''div'' [''file''] [pathLink ''src/app.py'', Elem ''button'' [] [Text ''Load diff'']]"

definition loadedSection :: node where
  "loadedSection =
     Elem ''div'' [''file'']
       [pathLink ''src/app.py'',
        codeLine [''blob-code'', ''blob-code-deletion''] ''foo'',
        codeLine [''blob-code'', ''blob-code-addition''] ''bar'']"

definition emptySection :: node where
  "emptySection = Elem ''div'' [''file''] [pathLink ''data.bin'']"

text \<open>A document of two sections, and one of three: a section without a file path and
  two files of the same base name.\<close>

definition otherSection :: node where
  "otherSection =
     Elem ''div'' [''file'']
       [pathLink ''docs/notes.txt'',
        codeLine [''blob-code'', ''blob-code-addition''] ''new'']"

definition twoDoc :: node where
  "twoDoc = Elem ''body'' [] [loadedSection, otherSection]"

definition sameNameSection :: node where
  "sameNameSection =
     Elem ''div'' [''file'']
       [pathLink ''lib/app.py'',
        codeLine [''blob-code'', ''blob-code-addition''] ''baz'']"

definition clashDoc :: node where
  "clashDoc =
     Elem ''body'' []
       [Elem ''div'' [''file''] [Text ''no header''], loadedSection, sameNameSection]"

text \<open>A page on which every wait brings one more section: the world is the number of
  sections.\<close>

definition growingEnv :: "(nat, nat, archive) env" where
  "growingEnv =
     \<lparr>querySelectorAll = (\<lambda>w e sel. []),
      documentQuerySelectorAll = (\<lambda>w sel. if sel = selFile then [0..<w] else []),
      textContent = (\<lambda>w e. []),
      click = (\<lambda>e w. w),
      sleep = (\<lambda>ms w. Suc w),
      scrollToBottom = (\<lambda>w. Inr w),
      scrollToTop = (\<lambda>w. w),
      pathname = (\<lambda>w. ''/octo/repo/pull/7/files''),
      generateAsync = (\<lambda>z. Inr z),
      saveAs = (\<lambda>blob name w. Inr w)\<rparr>"

text \<open>The page of trees when the document has no body: reading
  \<open>document.body.scrollHeight\<close> raises a \<open>TypeError\<close>.\<close>

definition noBodyEnv :: "(node list, nat list, archive) env" where
  "noBodyEnv = treeEnv\<lparr>scrollToBottom := (\<lambda>w. Inl (Exn ''TypeError''))\<rparr>"

section \<open>Properties of the string functions\<close>

lemma split_not_Nil: "split c p \<noteq> []"
  by (induction p) (auto split: list.splits)

lemma split_no_sep: "c \<notin> set p \<Longrightarrow> split c p = [p]"
  by (induction p) auto

lemma length_split_gt1: "(length (split c p) > 1) = (c \<in> set p)"
  by (induction p) (auto split: list.splits simp: split_not_Nil)

lemma last_split_Cons:
  "last (split c (x # xs)) =
     (if c \<in> set xs then last (split c xs) else if x = c then xs else x # xs)"
proof (cases "c \<in> set xs")
  case True
  then have "length (split c xs) > 1"
    using length_split_gt1 [of c xs] by simp
  then obtain p q ps where "split c xs = p # q # ps"
    by (cases "split c xs"; cases "tl (split c xs)") auto
  with True show ?thesis by simp
next
  case False
  then show ?thesis by (simp add: split_no_sep)
qed

lemma last_split_append: "c \<notin> set e \<Longrightarrow> last (split c (pre @ c # e)) = e"
proof (induction pre)
  case Nil
  then show ?case by (simp add: split_no_sep)
next
  case (Cons x pre)
  have "last (split c ((x # pre) @ c # e)) = last (split c (pre @ c # e))"
    unfolding append_Cons last_split_Cons by simp
  with Cons show ?case by simp
qed

section \<open>The Markdown formatter\<close>

text \<open>
  Claim C1. \<open>createMarkdownContent\<close> applies a fixed precedence, the first match
  winning: a not-inline record gives the heading and the view-externally message; a
  too-large record the heading and the unavailable message; a new-file record the
  heading, a Before section with the placeholder and a fenced After block tagged with
  the extension; a record whose before and after are both empty the heading and the
  no-textual-changes message; every other record the heading and fenced Before and
  After blocks tagged with the extension. The record with base name \<open>app.py\<close>,
  extension \<open>py\<close>, before \<open>foo\<close>, after \<open>bar\<close> and no flag set gives exactly the
  document of the scenario.
\<close>

theorem createMarkdownContent_precedence:
  "(truthy (notInline d) \<longrightarrow>
      createMarkdownContent d = heading d @ notInlineMessage)
   \<and> (\<not> truthy (notInline d) \<and> truthy (tooLarge d) \<longrightarrow>
      createMarkdownContent d = heading d @ tooLargeMessage)
   \<and> (\<not> truthy (notInline d) \<and> \<not> truthy (tooLarge d) \<and> truthy (isNewFile d) \<longrightarrow>
      createMarkdownContent d =
        heading d @ ''## Before'' @ nl @ placeholder @ nl @ nl @
        ''## After'' @ nl @ fenced (extension d) (after d))
   \<and> (\<not> truthy (notInline d) \<and> \<not> truthy (tooLarge d) \<and> \<not> truthy (isNewFile d) \<and>
      before d = [] \<and> after d = [] \<longrightarrow>
      createMarkdownContent d = heading d @ noChangesMessage)
   \<and> (\<not> truthy (notInline d) \<and> \<not> truthy (tooLarge d) \<and> \<not> truthy (isNewFile d) \<and>
      \<not> (before d = [] \<and> after d = []) \<longrightarrow>
      createMarkdownContent d =
        heading d @ ''## Before'' @ nl @ fenced (extension d) (before d) @ nl @
        ''## After'' @ nl @ fenced (extension d) (after d))
   \<and> createMarkdownContent (plainHunk ''app.py'' ''py'' ''foo'' ''bar'') =
        ''# app.py\<newline>\<newline>## Before\<newline>```py\<newline>foo\<newline>```\<newline>\<newline>## After\<newline>```py\<newline>bar\<newline>```\<newline>''"
  by (simp add: createMarkdownContent_def heading_def fenced_def notInlineMessage_def
      tooLargeMessage_def noChangesMessage_def placeholder_def plainHunk_def nl_def)

theorem createMarkdownContent_precedence_witness:
  "createMarkdownContent ((plainHunk ''a.py'' ''py'' ''x'' ''y'')
       \<lparr>notInline := Some True, tooLarge := Some True, isNewFile := Some True\<rparr>) =
     ''# a.py\<newline>\<newline>Diff not available inline. Please view the file directly on GitHub.''
   \<and> createMarkdownContent ((plainHunk ''a.py'' ''py'' ''x'' ''y'')
       \<lparr>notInline := Some False, tooLarge := Some True, isNewFile := Some True\<rparr>) =
     ''# a.py\<newline>\<newline>Diff too large to display on GitHub. Not available for export.''
   \<and> createMarkdownContent ((plainHunk ''a.py'' ''py'' [] ''y'')
       \<lparr>notInline := Some False, tooLarge := Some False, isNewFile := Some True\<rparr>) =
     ''# a.py\<newline>\<newline>## Before\<newline>This file did not exist before.\<newline>\<newline>## After\<newline>```py\<newline>y\<newline>```\<newline>''
   \<and> createMarkdownContent (plainHunk ''a.png'' ''png'' [] []) =
     ''# a.png\<newline>\<newline>No textual changes, file is binary, or too large to display.''
   \<and> createMarkdownContent (plainHunk ''Makefile'' [] ''x'' []) =
     ''# Makefile\<newline>\<newline>## Before\<newline>```\<newline>x\<newline>```\<newline>\<newline>## After\<newline>```\<newline>\<newline>```\<newline>''"
  using
    createMarkdownContent_precedence [of "(plainHunk ''a.py'' ''py'' ''x'' ''y'')
       \<lparr>notInline := Some True, tooLarge := Some True, isNewFile := Some True\<rparr>"]
    createMarkdownContent_precedence [of "(plainHunk ''a.py'' ''py'' ''x'' ''y'')
       \<lparr>notInline := Some False, tooLarge := Some True, isNewFile := Some True\<rparr>"]
    createMarkdownContent_precedence [of "(plainHunk ''a.py'' ''py'' [] ''y'')
       \<lparr>notInline := Some False, tooLarge := Some False, isNewFile := Some True\<rparr>"]
    createMarkdownContent_precedence [of "plainHunk ''a.png'' ''png'' [] []"]
    createMarkdownContent_precedence [of "plainHunk ''Makefile'' [] ''x'' []"]
  by (simp add: heading_def fenced_def notInlineMessage_def tooLargeMessage_def
      noChangesMessage_def placeholder_def plainHunk_def nl_def)

section \<open>Extension and base name\<close>

text \<open>
  Claim C2, as the code has it. For every path that contains a \<open>.\<close> anywhere, the
  first character included, \<open>getFileExtension\<close> returns what follows the last \<open>.\<close>;
  for every path without a \<open>.\<close> it returns the empty string.
\<close>

theorem getFileExtension_after_last_dot:
  "(CHR ''.'' \<notin> set ext \<longrightarrow> getFileExtension (pre @ CHR ''.'' # ext) = ext)
   \<and> (CHR ''.'' \<notin> set p \<longrightarrow> getFileExtension p = [])"
proof (intro conjI impI)
  assume e: "CHR ''.'' \<notin> set ext"
  have "length (split (CHR ''.'') (pre @ CHR ''.'' # ext)) > 1"
    using length_split_gt1 [of "CHR ''.''" "pre @ CHR ''.'' # ext"] by simp
  with e show "getFileExtension (pre @ CHR ''.'' # ext) = ext"
    by (simp add: getFileExtension_def Let_def last_split_append)
next
  assume "CHR ''.'' \<notin> set p"
  then show "getFileExtension p = []"
    by (simp add: getFileExtension_def split_no_sep)
qed

theorem getFileExtension_after_last_dot_witness:
  "getFileExtension ''src/app.test.py'' = ''py'' \<and> getFileExtension ''Makefile'' = []"
  using getFileExtension_after_last_dot [of "''py''" "''src/app.test''" "''Makefile''"]
  by simp

text \<open>The claim as the specification words it fails: the only \<open>.\<close> of \<open>.gitignore\<close> is
  its first character, and its extension is not empty.\<close>

theorem getFileExtension_leading_dot:
  "CHR ''.'' \<notin> set (tl ''.gitignore'') \<and> getFileExtension ''.gitignore'' = ''gitignore''
   \<and> getFileExtension ''.gitignore'' \<noteq> []"
  by (simp add: getFileExtension_def)

text \<open>
  Claim C3, as the code has it. \<open>getBaseName\<close> returns what follows the last \<open>/\<close>
  when that is not empty, and the path unchanged when the path has no \<open>/\<close> or ends
  with one.
\<close>

theorem getBaseName_last_segment:
  "(CHR ''/'' \<notin> set b \<and> b \<noteq> [] \<longrightarrow> getBaseName (pre @ CHR ''/'' # b) = b)
   \<and> (CHR ''/'' \<notin> set p \<longrightarrow> getBaseName p = p)
   \<and> getBaseName (pre @ ''/'') = pre @ ''/''"
proof (intro conjI impI)
  assume "CHR ''/'' \<notin> set b \<and> b \<noteq> []"
  then show "getBaseName (pre @ CHR ''/'' # b) = b"
    by (simp add: getBaseName_def last_split_append)
next
  assume "CHR ''/'' \<notin> set p"
  then show "getBaseName p = p"
    by (simp add: getBaseName_def split_no_sep)
next
  have "last (split (CHR ''/'') (pre @ CHR ''/'' # [])) = []"
    by (rule last_split_append) simp
  then show "getBaseName (pre @ ''/'') = pre @ ''/''"
    by (simp add: getBaseName_def)
qed

theorem getBaseName_last_segment_witness:
  "getBaseName ''src/lib/app.py'' = ''app.py'' \<and> getBaseName ''README.md'' = ''README.md''
   \<and> getBaseName ''src/lib/'' = ''src/lib/''"
  using getBaseName_last_segment [of "''app.py''" "''src/lib''" "''README.md''"]
  by simp

text \<open>The claim as the specification words it fails: for a path that ends with \<open>/\<close>
  nothing follows the last \<open>/\<close>, and the base name is the whole path.\<close>

theorem getBaseName_trailing_slash:
  "last ''src/'' = CHR ''/'' \<and> getBaseName ''src/'' = ''src/'' \<and> getBaseName ''src/'' \<noteq> []"
  by (simp add: getBaseName_def)

section \<open>The diff extractor: binary and new-file sections\<close>

text \<open>
  Claim C4. A section with a binary or rendered marker is classified binary, whatever
  other markers it carries (nothing is assumed about a new-file label): when the
  section has a file path, the record produced has empty before and after and no
  flag set, no load attempt is made, and the formatter renders the
  no-textual-changes message for it.
\<close>

theorem processDiff_binary_wins:
  assumes "querySelector E w file selPathLink = Some a"
    and "trim (textContent E w a) = path" and "path \<noteq> []"
    and "isBinaryFile E w file"
  shows "processDiff E file w =
           (Some \<lparr>before = [], after = [], filePath = path,
                  extension = getFileExtension path, baseName = getBaseName path,
                  tooLarge = None, notInline = None, isNewFile = None\<rparr>, 0, w)
         \<and> createMarkdownContent
             \<lparr>before = [], after = [], filePath = path,
              extension = getFileExtension path, baseName = getBaseName path,
              tooLarge = None, notInline = None, isNewFile = None\<rparr> =
           ''# '' @ getBaseName path @ nl @ nl @ noChangesMessage"
  using assms
  by (simp add: processDiff_def createMarkdownContent_def noChangesMessage_def)

theorem processDiff_binary_wins_witness:
  "isBinaryFile treeEnv [binaryNewSection] [] \<and> isNewFile_of treeEnv [binaryNewSection] []
   \<and> processDiff treeEnv [] [binaryNewSection] =
       (Some \<lparr>before = [], after = [], filePath = ''img/logo.png'',
              extension = ''png'', baseName = ''logo.png'',
              tooLarge = None, notInline = None, isNewFile = None\<rparr>, 0, [binaryNewSection])
   \<and> createMarkdownContent
         \<lparr>before = [], after = [], filePath = ''img/logo.png'',
          extension = ''png'', baseName = ''logo.png'',
          tooLarge = None, notInline = None, isNewFile = None\<rparr> =
       ''# logo.png\<newline>\<newline>No textual changes, file is binary, or too large to display.''"
proof -
  have a: "querySelector treeEnv [binaryNewSection] [] selPathLink = Some [0, 0]"
    by code_simp
  have b: "trim (textContent treeEnv [binaryNewSection] [0, 0]) = ''img/logo.png''"
    by code_simp
  have c: "isBinaryFile treeEnv [binaryNewSection] []"
    by code_simp
  have d: "isNewFile_of treeEnv [binaryNewSection] []"
    by code_simp
  have e: "getFileExtension ''img/logo.png'' = ''png''" "getBaseName ''img/logo.png'' = ''logo.png''"
    by code_simp+
  from processDiff_binary_wins [OF a b _ c] c d e show ?thesis
    by (simp add: noChangesMessage_def nl_def)
qed

text \<open>
  Claim C5. For a section classified as new-file (it has a file path, no binary
  marker and a new-file label), the record produced has before equal to
  \<open>This file did not exist before.\<close>, after equal to the texts of all the content
  lines of the section, in document order, joined by newlines, and
  \<open>isNewFile = true\<close>.
\<close>

theorem processDiff_new_file:
  assumes "querySelector E w file selPathLink = Some a"
    and "trim (textContent E w a) = path" and "path \<noteq> []"
    and "\<not> isBinaryFile E w file" and "isNewFile_of E w file"
  shows "\<exists>d. fst (processDiff E file w) = Some d
           \<and> before d = ''This file did not exist before.''
           \<and> after d = join nl (map (textContent E w) (querySelectorAll E w file selBlobCode))
           \<and> isNewFile d = Some True"
  using assms
  by (simp add: processDiff_def placeholder_def)

theorem processDiff_new_file_witness:
  "\<exists>d. fst (processDiff treeEnv [] [readmeSection]) = Some d
      \<and> before d = ''This file did not exist before.''
      \<and> after d = ''# Title\<newline>body''
      \<and> isNewFile d = Some True"
proof -
  have a: "querySelector treeEnv [readmeSection] [] selPathLink = Some [0, 0]"
    by code_simp
  have b: "trim (textContent treeEnv [readmeSection] [0, 0]) = ''README.md''"
    by code_simp
  have c: "\<not> isBinaryFile treeEnv [readmeSection] []"
    by code_simp
  have d: "isNewFile_of treeEnv [readmeSection] []"
    by code_simp
  have e: "join nl (map (textContent treeEnv [readmeSection])
             (querySelectorAll treeEnv [readmeSection] [] selBlobCode)) = ''# Title\<newline>body''"
    by code_simp
  from processDiff_new_file [OF a b _ c d] e show ?thesis
    by simp
qed

text \<open>
  Claim C10. Every record the extractor produces with \<open>isNewFile\<close> set has \<open>tooLarge\<close>
  and \<open>notInline\<close> false; no load attempt was made for its section and the page is as
  it was; and the formatter renders it by its new-file branch.
\<close>

theorem new_file_records_not_flagged:
  assumes "processDiff E file w = (Some d, n, w')" and "truthy (isNewFile d)"
  shows "\<not> truthy (tooLarge d) \<and> \<not> truthy (notInline d) \<and> n = 0 \<and> w' = w
         \<and> createMarkdownContent d =
             heading d @ ''## Before'' @ nl @ placeholder @ nl @ nl @
             ''## After'' @ nl @ fenced (extension d) (after d)"
  using assms
  by (auto simp: processDiff_def Let_def createMarkdownContent_def heading_def fenced_def
      placeholder_def split: option.splits if_splits prod.splits)

theorem new_file_records_not_flagged_witness:
  "processDiff treeEnv [] [readmeSection] =
     (Some \<lparr>before = ''This file did not exist before.'', after = ''# Title\<newline>body'',
            filePath = ''README.md'', extension = ''md'', baseName = ''README.md'',
            tooLarge = Some False, notInline = Some False, isNewFile = Some True\<rparr>,
      0, [readmeSection])
   \<and> createMarkdownContent
         \<lparr>before = ''This file did not exist before.'', after = ''# Title\<newline>body'',
          filePath = ''README.md'', extension = ''md'', baseName = ''README.md'',
          tooLarge = Some False, notInline = Some False, isNewFile = Some True\<rparr> =
       ''# README.md\<newline>\<newline>## Before\<newline>This file did not exist before.\<newline>\<newline>## After\<newline>```md\<newline># Title\<newline>body\<newline>```\<newline>''"
proof -
  have a: "processDiff treeEnv [] [readmeSection] =
     (Some \<lparr>before = ''This file did not exist before.'', after = ''# Title\<newline>body'',
            filePath = ''README.md'', extension = ''md'', baseName = ''README.md'',
            tooLarge = Some False, notInline = Some False, isNewFile = Some True\<rparr>,
      0, [readmeSection])"
    by code_simp
  from new_file_records_not_flagged [OF a] a show ?thesis
    by (simp add: heading_def fenced_def placeholder_def nl_def)
qed

section \<open>The load-diff protocol\<close>

lemma tryLoadLoop_stop:
  "attempt < 5 \<Longrightarrow> attemptVerdict E file w = Some v \<Longrightarrow>
     tryLoadLoop E file attempt w = (flagsOf v, attempt + 1, w)"
  by (subst tryLoadLoop.simps)
    (auto simp: attemptVerdict_def controlFound_def linkFound_def linesPresent_def
      tooLargeText_def Let_def split: if_splits option.splits)

lemma tryLoadLoop_retry:
  "attempt < 5 \<Longrightarrow> attemptVerdict E file w = None \<Longrightarrow>
     tryLoadLoop E file attempt w = tryLoadLoop E file (attempt + 1) (nextWorld E file w)"
  by (subst tryLoadLoop.simps)
    (auto simp: attemptVerdict_def controlFound_def linkFound_def linesPresent_def
      tooLargeText_def nextWorld_def Let_def split: if_splits option.splits)

lemma tryLoadLoop_done:
  "\<not> attempt < 5 \<Longrightarrow> tryLoadLoop E file attempt w = ((False, False), attempt, w)"
  by (subst tryLoadLoop.simps) simp

lemma worldAt_Suc: "worldAt E file w (Suc j) = worldAt E file (nextWorld E file w) j"
  by (simp add: worldAt_def funpow_swap1)

lemma tryLoadLoop_first:
  "attempt + k < 5 \<Longrightarrow> (\<forall>j<k. attemptVerdict E file (worldAt E file w j) = None) \<Longrightarrow>
   attemptVerdict E file (worldAt E file w k) = Some v \<Longrightarrow>
     tryLoadLoop E file attempt w = (flagsOf v, attempt + k + 1, worldAt E file w k)"
proof (induction k arbitrary: attempt w)
  case 0
  then show ?case by (simp add: worldAt_def tryLoadLoop_stop)
next
  case (Suc k)
  from Suc.prems(2) have "attemptVerdict E file (worldAt E file w 0) = None" by blast
  then have now: "attemptVerdict E file w = None" by (simp add: worldAt_def)
  have later: "\<forall>j<k. attemptVerdict E file (worldAt E file (nextWorld E file w) j) = None"
    using Suc.prems(2) by (simp add: worldAt_Suc [symmetric])
  have "tryLoadLoop E file (attempt + 1) (nextWorld E file w) =
          (flagsOf v, (attempt + 1) + k + 1, worldAt E file (nextWorld E file w) k)"
    using Suc.prems(1,3) later by (intro Suc.IH) (simp_all add: worldAt_Suc)
  with Suc.prems(1) now show ?case
    by (simp add: tryLoadLoop_retry worldAt_Suc)
qed

lemma tryLoadLoop_exhausted:
  "attempt + k = 5 \<Longrightarrow> (\<forall>j<k. attemptVerdict E file (worldAt E file w j) = None) \<Longrightarrow>
     tryLoadLoop E file attempt w = ((False, False), 5, worldAt E file w k)"
proof (induction k arbitrary: attempt w)
  case 0
  then show ?case by (simp add: worldAt_def tryLoadLoop_done)
next
  case (Suc k)
  from Suc.prems(2) have "attemptVerdict E file (worldAt E file w 0) = None" by blast
  then have now: "attemptVerdict E file w = None" by (simp add: worldAt_def)
  have later: "\<forall>j<k. attemptVerdict E file (worldAt E file (nextWorld E file w) j) = None"
    using Suc.prems(2) by (simp add: worldAt_Suc [symmetric])
  have "tryLoadLoop E file (attempt + 1) (nextWorld E file w) =
          ((False, False), 5, worldAt E file (nextWorld E file w) k)"
    using Suc.prems(1) later by (intro Suc.IH) simp_all
  with Suc.prems(1) now show ?case
    by (simp add: tryLoadLoop_retry worldAt_Suc)
qed

lemma tryLoadLoop_attempts:
  "attempt \<le> 5 \<Longrightarrow> fst (snd (tryLoadLoop E f attempt w)) \<le> 5"
proof (induction "5 - attempt" arbitrary: attempt w)
  case 0
  then show ?case by (simp add: tryLoadLoop_done)
next
  case (Suc m)
  then have lt: "attempt < 5" by simp
  show ?case
  proof (cases "attemptVerdict E f w")
    case (Some v)
    with lt show ?thesis by (simp add: tryLoadLoop_stop)
  next
    case None
    have "fst (snd (tryLoadLoop E f (attempt + 1) (nextWorld E f w))) \<le> 5"
      using Suc.hyps(2) lt by (intro Suc.hyps(1)) simp_all
    with lt None show ?thesis by (simp add: tryLoadLoop_retry)
  qed
qed

lemma tryLoadLoop_attempts_pos:
  "attempt < 5 \<Longrightarrow> attempt < fst (snd (tryLoadLoop E f attempt w))"
proof (induction "5 - attempt" arbitrary: attempt w)
  case 0
  then show ?case by simp
next
  case (Suc m)
  show ?case
  proof (cases "attemptVerdict E f w")
    case (Some v)
    with Suc.prems show ?thesis by (simp add: tryLoadLoop_stop)
  next
    case None
    show ?thesis
    proof (cases "attempt + 1 < 5")
      case True
      have "attempt + 1 < fst (snd (tryLoadLoop E f (attempt + 1) (nextWorld E f w)))"
        using Suc.hyps(2) True by (intro Suc.hyps(1)) simp_all
      with Suc.prems None show ?thesis by (simp add: tryLoadLoop_retry)
    next
      case False
      with Suc.prems None show ?thesis by (simp add: tryLoadLoop_retry tryLoadLoop_done)
    qed
  qed
qed

lemma tryLoadLargeDiff_first:
  assumes "k < 5" and "\<forall>j<k. attemptVerdict E file (worldAt E file w j) = None"
    and "attemptVerdict E file (worldAt E file w k) = Some v"
  shows "tryLoadLargeDiff E file w = (v, Suc k, worldAt E file w k)"
proof -
  have "tryLoadLoop E file 0 w = (flagsOf v, 0 + k + 1, worldAt E file w k)"
    using assms by (intro tryLoadLoop_first) simp_all
  then show ?thesis by (cases v) (simp_all add: tryLoadLargeDiff_def)
qed

lemma all_less_5: "(\<forall>j<5. P (j::nat)) = (P 0 \<and> P 1 \<and> P 2 \<and> P 3 \<and> P 4)"
  by (simp add: numeral_eq_Suc All_less_Suc conj_ac)

text \<open>
  Claim C7. The load-diff protocol makes at least one and at most 5 attempts and
  returns one of the three outcomes. At the first attempt that resolves anything:
  when a keyword matches a navigation link and no button or summary, it returns
  not-inline at that attempt, without retrying; when no control and no link is found
  and deletion- or addition-marked lines are present, it returns loaded at that
  attempt; when none of these holds and the section shows the too-large text, it
  returns too-large at that attempt. When five attempts resolve nothing, it returns
  too-large after the fifth. The world at attempt \<open>k\<close> is \<open>worldAt E file w k\<close>, and an
  attempt resolves nothing when its verdict is \<open>None\<close>.
\<close>

theorem tryLoadLargeDiff_outcomes:
  "1 \<le> fst (snd (tryLoadLargeDiff E file w)) \<and> fst (snd (tryLoadLargeDiff E file w)) \<le> 5
   \<and> (\<forall>k<5. (\<forall>j<k. attemptVerdict E file (worldAt E file w j) = None) \<longrightarrow>
         controlFound E (worldAt E file w k) file = None \<and>
         linkFound E (worldAt E file w k) file \<noteq> None \<longrightarrow>
         tryLoadLargeDiff E file w = (NotInline, Suc k, worldAt E file w k))
   \<and> (\<forall>k<5. (\<forall>j<k. attemptVerdict E file (worldAt E file w j) = None) \<longrightarrow>
         controlFound E (worldAt E file w k) file = None \<and>
         linkFound E (worldAt E file w k) file = None \<and>
         linesPresent E (worldAt E file w k) file \<longrightarrow>
         tryLoadLargeDiff E file w = (Loaded, Suc k, worldAt E file w k))
   \<and> (\<forall>k<5. (\<forall>j<k. attemptVerdict E file (worldAt E file w j) = None) \<longrightarrow>
         controlFound E (worldAt E file w k) file = None \<and>
         linkFound E (worldAt E file w k) file = None \<and>
         \<not> linesPresent E (worldAt E file w k) file \<and>
         tooLargeText E (worldAt E file w k) file \<longrightarrow>
         tryLoadLargeDiff E file w = (TooLarge, Suc k, worldAt E file w k))
   \<and> ((\<forall>j<5. attemptVerdict E file (worldAt E file w j) = None) \<longrightarrow>
         tryLoadLargeDiff E file w = (TooLarge, 5, worldAt E file w 5))"
proof (intro conjI allI impI)
  have "0 < fst (snd (tryLoadLoop E file 0 w))"
    by (rule tryLoadLoop_attempts_pos) simp
  then show "1 \<le> fst (snd (tryLoadLargeDiff E file w))"
    by (auto simp: tryLoadLargeDiff_def split: prod.splits)
next
  have "fst (snd (tryLoadLoop E file 0 w)) \<le> 5"
    by (rule tryLoadLoop_attempts) simp
  then show "fst (snd (tryLoadLargeDiff E file w)) \<le> 5"
    by (auto simp: tryLoadLargeDiff_def split: prod.splits)
next
  fix k
  assume "k < 5" and "\<forall>j<k. attemptVerdict E file (worldAt E file w j) = None"
    and "controlFound E (worldAt E file w k) file = None \<and>
         linkFound E (worldAt E file w k) file \<noteq> None"
  then show "tryLoadLargeDiff E file w = (NotInline, Suc k, worldAt E file w k)"
    by (intro tryLoadLargeDiff_first) (simp_all add: attemptVerdict_def)
next
  fix k
  assume "k < 5" and "\<forall>j<k. attemptVerdict E file (worldAt E file w j) = None"
    and "controlFound E (worldAt E file w k) file = None \<and>
         linkFound E (worldAt E file w k) file = None \<and>
         linesPresent E (worldAt E file w k) file"
  then show "tryLoadLargeDiff E file w = (Loaded, Suc k, worldAt E file w k)"
    by (intro tryLoadLargeDiff_first) (simp_all add: attemptVerdict_def)
next
  fix k
  assume "k < 5" and "\<forall>j<k. attemptVerdict E file (worldAt E file w j) = None"
    and "controlFound E (worldAt E file w k) file = None \<and>
         linkFound E (worldAt E file w k) file = None \<and>
         \<not> linesPresent E (worldAt E file w k) file \<and>
         tooLargeText E (worldAt E file w k) file"
  then show "tryLoadLargeDiff E file w = (TooLarge, Suc k, worldAt E file w k)"
    by (intro tryLoadLargeDiff_first) (simp_all add: attemptVerdict_def)
next
  assume "\<forall>j<5. attemptVerdict E file (worldAt E file w j) = None"
  then have "tryLoadLoop E file 0 w = ((False, False), 5, worldAt E file w 5)"
    by (intro tryLoadLoop_exhausted) simp_all
  then show "tryLoadLargeDiff E file w = (TooLarge, 5, worldAt E file w 5)"
    by (simp add: tryLoadLargeDiff_def)
qed

theorem tryLoadLargeDiff_outcomes_witness:
  "tryLoadLargeDiff treeEnv [] [linkOnlySection] = (NotInline, 1, [linkOnlySection])
   \<and> tryLoadLargeDiff treeEnv [] [buttonSection, loadedSection] = (Loaded, 2, [loadedSection])
   \<and> tryLoadLargeDiff treeEnv [] [emptySection] = (TooLarge, 5, [emptySection])"
proof -
  have a: "controlFound treeEnv (worldAt treeEnv [] [linkOnlySection] 0) [] = None \<and>
           linkFound treeEnv (worldAt treeEnv [] [linkOnlySection] 0) [] \<noteq> None"
    by code_simp
  have a': "worldAt treeEnv [] [linkOnlySection] 0 = [linkOnlySection]"
    by code_simp
  have b0: "attemptVerdict treeEnv [] (worldAt treeEnv [] [buttonSection, loadedSection] 0) = None"
    by code_simp
  have b1: "controlFound treeEnv (worldAt treeEnv [] [buttonSection, loadedSection] 1) [] = None \<and>
            linkFound treeEnv (worldAt treeEnv [] [buttonSection, loadedSection] 1) [] = None \<and>
            linesPresent treeEnv (worldAt treeEnv [] [buttonSection, loadedSection] 1) []"
    by code_simp
  have b': "worldAt treeEnv [] [buttonSection, loadedSection] 1 = [loadedSection]"
    by code_simp
  have c: "attemptVerdict treeEnv [] (worldAt treeEnv [] [emptySection] 0) = None"
    "attemptVerdict treeEnv [] (worldAt treeEnv [] [emptySection] 1) = None"
    "attemptVerdict treeEnv [] (worldAt treeEnv [] [emptySection] 2) = None"
    "attemptVerdict treeEnv [] (worldAt treeEnv [] [emptySection] 3) = None"
    "attemptVerdict treeEnv [] (worldAt treeEnv [] [emptySection] 4) = None"
    by code_simp+
  have c': "worldAt treeEnv [] [emptySection] 5 = [emptySection]"
    by code_simp
  have "tryLoadLargeDiff treeEnv [] [linkOnlySection] = (NotInline, 1, [linkOnlySection])"
    using tryLoadLargeDiff_outcomes [of treeEnv "[]" "[linkOnlySection]"] a a'
    by (elim conjE allE [of _ 0]) simp
  moreover have "tryLoadLargeDiff treeEnv [] [buttonSection, loadedSection] = (Loaded, 2, [loadedSection])"
    using tryLoadLargeDiff_outcomes [of treeEnv "[]" "[buttonSection, loadedSection]"] b0 b1 b'
    by (elim conjE allE [of _ 1]) simp
  moreover have "tryLoadLargeDiff treeEnv [] [emptySection] = (TooLarge, 5, [emptySection])"
    using tryLoadLargeDiff_outcomes [of treeEnv "[]" "[emptySection]"] c c'
    by (simp add: all_less_5)
  ultimately show ?thesis by simp
qed

section \<open>The page loader\<close>

lemma streak_snoc:
  "streak (seen @ [n]) = (if n = hd (rev seen @ [0]) then Suc (streak seen) else 0)"
  by (cases "rev seen") (auto simp: streak_def)

lemma loadLoop_unfold:
  "loadLoop E lastFileCount stableCount tries seen s =
     (if tries < 50 then
        (case scrollToBottom E (world s) of
           Inl e \<Rightarrow> (Inl e, seen, s)
         | Inr w1 \<Rightarrow>
             (let n = length (documentQuerySelectorAll E (afterIteration E w1) selFile);
                  stable = (if n = lastFileCount then stableCount + 1 else 0);
                  s' = s\<lparr>world := afterIteration E w1, progressDisplay := ''block'',
                          progressShown := LoadingFiles n\<rparr>
              in if stable \<ge> 3 then (Inr (), seen @ [n], s')
                 else loadLoop E n stable (tries + 1) (seen @ [n]) s'))
      else (Inr (), seen, s))"
  by (subst loadLoop.simps) (simp add: afterIteration_def Let_def split: sum.splits)

text \<open>The invariant of the loop: \<open>lastFileCount\<close> is the latest observation,
  \<open>stableCount\<close> the streak, \<open>tries\<close> the number of observations, and the streak was
  below 3 after every earlier observation.\<close>

lemma loadLoop_invariant:
  assumes "loadLoop E lastFileCount stableCount tries seen s = (r, seen', s')"
    and "lastFileCount = hd (rev seen @ [0])" and "stableCount = streak seen"
    and "stableCount < 3" and "tries = length seen" and "tries \<le> 50"
    and "\<forall>m<length seen. streak (take m seen) < 3"
  shows "length seen' \<le> 50 \<and> (\<forall>m<length seen'. streak (take m seen') < 3)
         \<and> (r = Inr () \<longrightarrow> length seen' = 50 \<or> streak seen' = 3)
         \<and> (\<forall>e. r = Inl e \<longrightarrow> length seen' < 50)"
  using assms
proof (induction "50 - tries" arbitrary: lastFileCount stableCount tries seen s)
  case 0
  then have "tries = 50" by simp
  with 0 show ?case by (auto simp: loadLoop_unfold)
next
  case (Suc k)
  then have lt: "tries < 50" by simp
  show ?case
  proof (cases "scrollToBottom E (world s)")
    case (Inl e)
    with lt Suc.prems show ?thesis by (auto simp: loadLoop_unfold)
  next
    case (Inr w1)
    define n where "n = length (documentQuerySelectorAll E (afterIteration E w1) selFile)"
    define stable where "stable = (if n = lastFileCount then stableCount + 1 else 0)"
    define s1 where "s1 = s\<lparr>world := afterIteration E w1, progressDisplay := ''block'',
                          progressShown := LoadingFiles n\<rparr>"
    have st: "stable = streak (seen @ [n])"
      using Suc.prems(2,3) by (simp add: stable_def streak_snoc)
    have pre: "\<forall>m<length (seen @ [n]). streak (take m (seen @ [n])) < 3"
    proof (intro allI impI)
      fix m assume "m < length (seen @ [n])"
      then have "m \<le> length seen" by simp
      then show "streak (take m (seen @ [n])) < 3"
        using Suc.prems(3,4,7) by (cases "m = length seen") auto
    qed
    show ?thesis
    proof (cases "stable \<ge> 3")
      case True
      then have "stable = 3" using Suc.prems(4) by (auto simp: stable_def split: if_splits)
      moreover have "(r, seen', s') = (Inr (), seen @ [n], s1)"
        using Suc.prems(1) lt Inr True
        by (simp add: loadLoop_unfold n_def [symmetric] stable_def [symmetric]
            s1_def [symmetric] Let_def)
      ultimately show ?thesis using st pre lt Suc.prems(5) by auto
    next
      case False
      then have eq: "loadLoop E n stable (tries + 1) (seen @ [n]) s1 = (r, seen', s')"
        using Suc.prems(1) lt Inr
        by (simp add: loadLoop_unfold n_def [symmetric] stable_def [symmetric]
            s1_def [symmetric] Let_def)
      show ?thesis
      proof (rule Suc.hyps(1) [OF _ eq])
        show "k = 50 - (tries + 1)" using Suc.hyps(2) by simp
        show "n = hd (rev (seen @ [n]) @ [0])" by simp
        show "stable = streak (seen @ [n])" by (rule st)
        show "stable < 3" using False by simp
        show "tries + 1 = length (seen @ [n])" using Suc.prems(5) by simp
        show "tries + 1 \<le> 50" using lt by simp
        show "\<forall>m<length (seen @ [n]). streak (take m (seen @ [n])) < 3" by (rule pre)
      qed
    qed
  qed
qed

lemma increasing_streak:
  assumes "\<forall>i. Suc i < length seen \<longrightarrow> seen ! i < seen ! Suc i"
  shows "streak seen \<le> 1"
proof (cases "rev seen")
  case Nil
  then show ?thesis by (simp add: streak_def)
next
  case (Cons a ys)
  show ?thesis
  proof (cases ys)
    case Nil
    with Cons show ?thesis by (simp add: streak_def)
  next
    case (Cons b zs)
    with \<open>rev seen = a # ys\<close> have seen: "seen = rev zs @ [b, a]"
      by (metis append.assoc append_Cons append_Nil rev.simps(2) rev_rev_ident)
    then have "seen ! length zs < seen ! Suc (length zs)"
      using assms by simp
    with seen have "b < a" by (simp add: nth_append)
    with Cons \<open>rev seen = a # ys\<close> show ?thesis by (simp add: streak_def)
  qed
qed

text \<open>
  Claim C8. \<open>loadAllDiffs\<close> always returns, after at most 50 iterations (\<open>seen\<close> holds
  one observed count per completed iteration; an iteration that raises is one of
  the 50 too). It stops as soon as the count has been unchanged for 3 consecutive
  observations: the streak was below 3 after every earlier observation, and a
  normal return before the 50th observation has a streak of 3. When the count grows
  with every observation, a normal return comes after exactly 50 iterations.
\<close>

theorem loadAllDiffs_terminates:
  "\<exists>r seen s'. loadAllDiffs E s = (r, seen, s')
     \<and> length seen \<le> 50
     \<and> (\<forall>e. r = Inl e \<longrightarrow> length seen < 50)
     \<and> (\<forall>m<length seen. streak (take m seen) < 3)
     \<and> (r = Inr () \<longrightarrow> length seen = 50 \<or> streak seen = 3)
     \<and> (r = Inr () \<and> (\<forall>i. Suc i < length seen \<longrightarrow> seen ! i < seen ! Suc i) \<longrightarrow>
          length seen = 50)"
proof -
  obtain r seen s0 where loop: "loadLoop E 0 0 0 [] s = (r, seen, s0)"
    by (cases "loadLoop E 0 0 0 [] s") auto
  then obtain s' where all: "loadAllDiffs E s = (r, seen, s')"
    by (cases r) (simp_all add: loadAllDiffs_def)
  have inv: "length seen \<le> 50 \<and> (\<forall>m<length seen. streak (take m seen) < 3)
         \<and> (r = Inr () \<longrightarrow> length seen = 50 \<or> streak seen = 3)
         \<and> (\<forall>e. r = Inl e \<longrightarrow> length seen < 50)"
    by (rule loadLoop_invariant [OF loop]) (simp_all add: streak_def)
  have "length seen = 50"
    if "r = Inr ()" and inc: "\<forall>i. Suc i < length seen \<longrightarrow> seen ! i < seen ! Suc i"
  proof -
    have "streak seen \<le> 1" using inc by (rule increasing_streak)
    with inv that(1) show ?thesis by auto
  qed
  with inv all show ?thesis by blast
qed

theorem loadAllDiffs_terminates_witness:
  "fst (loadAllDiffs growingEnv (newExporter 0)) = Inr ()
   \<and> fst (snd (loadAllDiffs growingEnv (newExporter 0))) = [1..<51]
   \<and> length (fst (snd (loadAllDiffs growingEnv (newExporter 0)))) = 50
   \<and> fst (snd (loadAllDiffs treeEnv (newExporter [twoDoc]))) = [2, 2, 2, 2]
   \<and> streak [2, 2, 2, 2] = 3 \<and> streak [2, 2, 2] = 2"
proof -
  have g: "fst (loadAllDiffs growingEnv (newExporter 0)) = Inr ()"
    "fst (snd (loadAllDiffs growingEnv (newExporter 0))) = [1..<51]"
    by code_simp+
  have t: "fst (snd (loadAllDiffs treeEnv (newExporter [twoDoc]))) = [2, 2, 2, 2]"
    by code_simp
  have s: "streak [2, 2, 2, 2] = 3" "streak [2, 2, 2] = 2"
    by code_simp+
  have inc: "\<forall>i. Suc i < length [1..<51::nat] \<longrightarrow> [1..<51] ! i < [1..<51] ! Suc i"
    by simp
  from loadAllDiffs_terminates [of growingEnv "newExporter 0"] g inc
  have "length (fst (snd (loadAllDiffs growingEnv (newExporter 0)))) = 50"
    by auto
  with g t s show ?thesis by simp
qed

section \<open>The archive\<close>

lemma zipFile_new: "name \<notin> fst ` set z \<Longrightarrow> zipFile name content z = z @ [(name, content)]"
  by (induction z) auto

lemma writeEntry_new:
  "fst (entryOf d) \<notin> fst ` set z \<Longrightarrow> writeEntry d z = z @ [entryOf d]"
  by (simp add: writeEntry_def folderFile_def entryOf_def zipFile_new)

lemma fold_writeEntry_distinct:
  "distinct (map (fst \<circ> entryOf) ds) \<Longrightarrow> fst ` set z \<inter> (fst \<circ> entryOf) ` set ds = {} \<Longrightarrow>
     fold writeEntry ds z = z @ map entryOf ds"
proof (induction ds arbitrary: z)
  case Nil
  then show ?case by simp
next
  case (Cons d ds)
  from Cons.prems(2) have new: "fst (entryOf d) \<notin> fst ` set z" by auto
  have "fold writeEntry ds (z @ [entryOf d]) = (z @ [entryOf d]) @ map entryOf ds"
    using Cons.prems by (intro Cons.IH) auto
  with new show ?case by (simp add: writeEntry_new)
qed

lemma entry_names_distinct:
  "distinct (map baseName ds) \<Longrightarrow> distinct (map (fst \<circ> entryOf) ds)"
  by (simp add: distinct_map entryOf_def comp_def inj_on_def)

lemma length_recordsOf: "length (recordsOf E files w) = length files"
  by (induction files arbitrary: w) (auto split: prod.splits)

lemma length_produced: "length (produced rs) \<le> length rs"
  by (induction rs rule: produced.induct) auto

lemma length_produced_all: "None \<notin> set rs \<Longrightarrow> length (produced rs) = length rs"
  by (induction rs rule: produced.induct) auto

lemma exportLoop_archive:
  "exportLoop E files processedFiles totalFiles s = (ds, s') \<Longrightarrow>
     zip s' = fold writeEntry ds (zip s) \<and> ds = produced (recordsOf E files (world s))"
proof (induction files arbitrary: processedFiles s ds s')
  case Nil
  then show ?case by simp
next
  case (Cons f files)
  obtain diff n w' where pd: "processDiff E f (world s) = (diff, n, w')"
    by (cases "processDiff E f (world s)") auto
  define s1 where "s1 = (case diff of
                       None \<Rightarrow> s\<lparr>world := w'\<rparr>
                     | Some d \<Rightarrow>
                         s\<lparr>world := w',
                           zip := folderFile ''diffs'' (baseName d @ ''.md'')
                                    (createMarkdownContent d) (zip s)\<rparr>)"
  define s2 where "s2 = updateProgress (processedFiles + 1) totalFiles None s1"
  obtain ds2 s3 where rest: "exportLoop E files (processedFiles + 1) totalFiles s2 = (ds2, s3)"
    by (cases "exportLoop E files (processedFiles + 1) totalFiles s2") auto
  from Cons.prems pd rest [unfolded s2_def]
  have res: "ds = (case diff of None \<Rightarrow> [] | Some d \<Rightarrow> [d]) @ ds2" "s' = s3"
    by (simp_all add: s1_def [symmetric] Let_def)
  have z2: "zip s2 = (case diff of None \<Rightarrow> zip s | Some d \<Rightarrow> writeEntry d (zip s))"
    and w2: "world s2 = w'"
    by (simp_all add: s2_def s1_def updateProgress_def writeEntry_def split: option.splits)
  from Cons.IH [OF rest]
  have "zip s3 = fold writeEntry ds2 (zip s2)" "ds2 = produced (recordsOf E files (world s2))"
    by simp_all
  with res z2 w2 pd show ?case by (simp split: option.splits)
qed

text \<open>
  Claim C6, as the code has it. An export run over the \<open>N\<close> sections found when it
  starts writes one entry for each section that yields a record, in document order;
  a section without a file path yields none and is skipped. The entry of a record is
  named \<open>diffs/<baseName>.md\<close> and holds the formatter's output for that record, and
  an entry written under a name that is already in the archive replaces the earlier
  one. So, starting from an empty archive, when the base names of the records are
  distinct the archive holds exactly the entries of the records, in document order,
  and when moreover no section is skipped it holds exactly \<open>N\<close> entries.
\<close>

theorem exportDiffs_archive:
  assumes "exportDiffs E s = (ds, s')"
    and "files = documentQuerySelectorAll E (world s) selFile"
  shows "ds = produced (recordsOf E files (world s))
         \<and> length (recordsOf E files (world s)) = length files
         \<and> zip s' = fold writeEntry ds (zip s)
         \<and> (zip s = [] \<and> distinct (map baseName ds) \<longrightarrow> zip s' = map entryOf ds)
         \<and> (zip s = [] \<and> distinct (map baseName ds) \<and> None \<notin> set (recordsOf E files (world s)) \<longrightarrow>
              length (zip s') = length files)"
proof -
  obtain r s1 where body: "exportBody E s = (r, ds, s1)" and z: "zip s' = zip s1"
    using assms(1) by (auto simp: exportDiffs_def Let_def split: prod.splits sum.splits)
  obtain s0 where loop: "exportLoop E files 0 (length files) s = (ds, s0)"
    and z0: "zip s1 = zip s0"
    using body assms(2) by (auto simp: exportBody_def Let_def split: prod.splits sum.splits)
  from exportLoop_archive [OF loop] z z0
  have a: "zip s' = fold writeEntry ds (zip s)"
    and b: "ds = produced (recordsOf E files (world s))" by simp_all
  have c: "zip s' = map entryOf ds" if "zip s = []" "distinct (map baseName ds)"
    using a that fold_writeEntry_distinct [of ds "[]"] entry_names_distinct [of ds] by simp
  have "length (zip s') = length files"
    if "zip s = []" "distinct (map baseName ds)" "None \<notin> set (recordsOf E files (world s))"
    using c [OF that(1,2)] b length_produced_all [OF that(3)] by (simp add: length_recordsOf)
  with a b c show ?thesis by (simp add: length_recordsOf)
qed

theorem exportDiffs_archive_witness:
  "zip (snd (exportDiffs treeEnv (newExporter [twoDoc]))) =
     [(''diffs/app.py.md'', ''# app.py\<newline>\<newline>## Before\<newline>```py\<newline>foo\<newline>```\<newline>\<newline>## After\<newline>```py\<newline>bar\<newline>```\<newline>''),
      (''diffs/notes.txt.md'', ''# notes.txt\<newline>\<newline>## Before\<newline>```txt\<newline>\<newline>```\<newline>\<newline>## After\<newline>```txt\<newline>new\<newline>```\<newline>'')]
   \<and> length (zip (snd (exportDiffs treeEnv (newExporter [twoDoc])))) =
       length (documentQuerySelectorAll treeEnv [twoDoc] selFile)"
proof -
  define ds where "ds = fst (exportDiffs treeEnv (newExporter [twoDoc]))"
  define s' where "s' = snd (exportDiffs treeEnv (newExporter [twoDoc]))"
  have run: "exportDiffs treeEnv (newExporter [twoDoc]) = (ds, s')"
    by (simp add: ds_def s'_def)
  have ds: "ds = [\<lparr>before = ''foo'', after = ''bar'', filePath = ''src/app.py'',
                   extension = ''py'', baseName = ''app.py'', tooLarge = Some False,
                   notInline = Some False, isNewFile = Some False\<rparr>,
                  \<lparr>before = [], after = ''new'', filePath = ''docs/notes.txt'',
                   extension = ''txt'', baseName = ''notes.txt'', tooLarge = Some False,
                   notInline = Some False, isNewFile = Some False\<rparr>]"
    unfolding ds_def by code_simp
  have files: "documentQuerySelectorAll treeEnv (world (newExporter [twoDoc])) selFile = [[0], [1]]"
    by code_simp
  have recs: "None \<notin> set (recordsOf treeEnv [[0], [1]] (world (newExporter [twoDoc])))"
    by code_simp
  have empty: "zip (newExporter [twoDoc]) = []"
    by (simp add: newExporter_def)
  have dist: "distinct (map baseName ds)"
    by (simp add: ds)
  note T = exportDiffs_archive [OF run files [symmetric]]
  from T have "zip (newExporter [twoDoc]) = [] \<and> distinct (map baseName ds) \<longrightarrow>
      zip s' = map entryOf ds"
    by (elim conjE)
  with empty dist have "zip s' = map entryOf ds"
    by blast
  moreover from T have "zip (newExporter [twoDoc]) = [] \<and> distinct (map baseName ds) \<and>
      None \<notin> set (recordsOf treeEnv [[0], [1]] (world (newExporter [twoDoc]))) \<longrightarrow>
      length (zip s') = length [[0::nat], [1]]"
    by (elim conjE)
  with empty dist recs have "length (zip s') = length [[0::nat], [1]]"
    by blast
  moreover have "map entryOf ds = [(''diffs/app.py.md'', ''# app.py\<newline>\<newline>## Before\<newline>```py\<newline>foo\<newline>```\<newline>\<newline>## After\<newline>```py\<newline>bar\<newline>```\<newline>''),
      (''diffs/notes.txt.md'', ''# notes.txt\<newline>\<newline>## Before\<newline>```txt\<newline>\<newline>```\<newline>\<newline>## After\<newline>```txt\<newline>new\<newline>```\<newline>'')]"
    unfolding ds by code_simp
  ultimately show ?thesis using files by (simp add: s'_def newExporter_def)
qed

text \<open>The claim as the specification words it fails: of three sections, one without
  a file path and two with the base name \<open>app.py\<close>, a single entry is left, with the
  content of the last.\<close>

theorem exportDiffs_fewer_entries:
  "length (documentQuerySelectorAll treeEnv [clashDoc] selFile) = 3
   \<and> zip (snd (exportDiffs treeEnv (newExporter [clashDoc]))) =
       [(''diffs/app.py.md'', ''# app.py\<newline>\<newline>## Before\<newline>```py\<newline>\<newline>```\<newline>\<newline>## After\<newline>```py\<newline>baz\<newline>```\<newline>'')]
   \<and> length (zip (snd (exportDiffs treeEnv (newExporter [clashDoc])))) \<noteq> 3"
proof -
  have a: "length (documentQuerySelectorAll treeEnv [clashDoc] selFile) = 3"
    by code_simp
  have b: "zip (snd (exportDiffs treeEnv (newExporter [clashDoc]))) =
       [(''diffs/app.py.md'', ''# app.py\<newline>\<newline>## Before\<newline>```py\<newline>\<newline>```\<newline>\<newline>## After\<newline>```py\<newline>baz\<newline>```\<newline>'')]"
    by code_simp
  from a b show ?thesis by simp
qed

text \<open>The archive is created once, with the exporter. A second run on the same
  exporter starts from the entries of the first: here the page has changed to a
  single new file in between.\<close>

lemma exportDiffs_second_run:
  "map fst (zip (snd (exportDiffs treeEnv
      ((snd (exportDiffs treeEnv (newExporter [twoDoc])))
         \<lparr>world := [Elem ''body'' [] [readmeSection]]\<rparr>)))) =
     [''diffs/app.py.md'', ''diffs/notes.txt.md'', ''diffs/README.md.md'']"
  by code_simp

section \<open>The export button\<close>

text \<open>Whatever happens inside \<open>exportDiffs\<close>, its \<open>finally\<close> block enables the button and
  hides the progress element; so does the handler whenever the loader returns
  normally.\<close>

lemma exportDiffs_restores:
  "buttonDisabled (snd (exportDiffs E s)) = False \<and>
   progressDisplay (snd (exportDiffs E s)) = ''none''"
  by (simp add: exportDiffs_def Let_def split: prod.splits sum.splits)

lemma handleExportClick_restores_after_loading:
  "fst (loadAllDiffs E (updateProgress 0 0 (Some ''Loading all diffs...'') (s\<lparr>buttonDisabled := True\<rparr>))) = Inr () \<Longrightarrow>
     buttonDisabled (snd (handleExportClick E s)) = False \<and>
     progressDisplay (snd (handleExportClick E s)) = ''none''"
  by (auto simp: handleExportClick_def Let_def exportDiffs_restores split: prod.splits sum.splits)

text \<open>
  Claim C9 says that the button is enabled again and the progress element hidden on
  every exit path of the handler, also after an error raised at any point after the
  click. The handler disables the button and shows the progress element before it
  calls \<open>loadAllDiffs\<close>, outside the \<open>try\<close> of \<open>exportDiffs\<close>: on a page where the
  loader raises, the run ends with the button disabled and the progress element
  shown.
\<close>

theorem handleExportClick_stuck_after_loader_error:
  "handleExportClick noBodyEnv (newExporter [twoDoc]) =
     (Inl (Exn ''TypeError''),
      \<lparr>world = [twoDoc], zip = [], buttonDisabled = True, progressDisplay = ''block'',
       progressShown = Message ''Loading all diffs...'', alerts = 0\<rparr>)"
  by code_simp

end
